theory Spec2Isabelle
  imports Complex_Main "HOL-Library.Word" "HOL-Library.AList"
begin

section \<open>The aggregating latency meter of gocb\<close>

text \<open>
  The development follows the file that declares \<open>AggregatingMeter\<close>: the exponential
  latency histogram, its cumulative snapshot, the per-peer value recorder, the recorder
  groups and the meter with its logging routine.

  Conventions of the embedding.
  \<^item> \<open>uint64\<close> is \<open>64 word\<close>: additions wrap.
  \<^item> \<open>float64\<close> is read as a real number and \<open>math.Log\<close>, \<open>math.Ceil\<close>,
    \<open>math.Pow\<close>, \<open>/\<close> and \<open>*\<close> as the exact operations. Where Go would produce
    an infinity or a NaN (logarithm of a non-positive number, division by zero, zero to a
    negative power) the model returns \<open>FloatNotFinite\<close>; where Go converts a float that the
    integer type cannot hold the model returns \<open>ImplementationDependent\<close>. The model
    says nothing more about such runs. Rounding is not modelled: the conversion of a
    \<open>uint64\<close> to \<open>float64\<close> is exact up to \<open>2^53\<close> and taken as exact beyond.
  \<^item> Memory is unbounded: \<open>make\<close> fails only on a negative length.
  \<^item> A runtime panic is a value \<open>Inl e\<close> of the result type \<open>error + 'a\<close>.
  \<^item> Pointers to recorders are addresses into an explicit store, a list of recorders.
  \<^item> The mutex of a group is not modelled: operations are atomic steps in a sequential
    schedule.
\<close>

type_synonym uint64 = "64 word"
type_synonym float64 = real

datatype error =
    IndexOutOfRange
  | MakeSliceLenOutOfRange
  | FloatNotFinite
  | ImplementationDependent
  | NilDereference

subsection \<open>The float operations the code uses\<close>

definition floatDiv :: "float64 \<Rightarrow> float64 \<Rightarrow> float64 option" where
  "floatDiv a b = (if b = 0 then None else Some (a / b))"

definition mathLog :: "float64 \<Rightarrow> float64 option" where
  "mathLog x = (if 0 < x then Some (ln x) else None)"

definition mathCeil :: "float64 \<Rightarrow> int" where
  "mathCeil x = \<lceil>x\<rceil>"

definition mathPow :: "float64 \<Rightarrow> int \<Rightarrow> float64 option" where
  \<comment> \<open>\<open>math.Pow(x, float64(n))\<close> for an integer \<open>n\<close>\<close>
  "mathPow x n = (if x = 0 \<and> n < 0 then None else Some (x powi n))"

definition float64OfUint64 :: "uint64 \<Rightarrow> float64" where
  "float64OfUint64 w = real (unat w)"

definition uint64OfFloat :: "int \<Rightarrow> error + uint64" where
  \<comment> \<open>\<open>uint64(f)\<close> for an integral float \<open>f\<close>\<close>
  "uint64OfFloat t = (if 0 \<le> t \<and> t < 2 ^ 64 then Inr (word_of_int t) else Inl ImplementationDependent)"

subsection \<open>\<open>fmt.Sprintf("%.2f", x)\<close>\<close>

definition digitChar :: "nat \<Rightarrow> char" where
  "digitChar d = ''0123456789'' ! d"

function showNat :: "nat \<Rightarrow> string" where
  "showNat n = (if n < 10 then [digitChar n] else showNat (n div 10) @ [digitChar (n mod 10)])"
  by pat_completeness auto
termination
  by (relation "measure id") auto

declare showNat.simps [simp del]

definition roundHalfEven :: "real \<Rightarrow> int" where
  "roundHalfEven y =
     (let f = \<lfloor>y\<rfloor>; d = y - of_int f
      in if d < 1 / 2 then f else if 1 / 2 < d then f + 1 else if even f then f else f + 1)"

definition formatFixed2 :: "float64 \<Rightarrow> string" where
  "formatFixed2 x =
     (let n = nat (roundHalfEven (\<bar>x\<bar> * 100))
      in (if x < 0 then ''-'' else '''') @ showNat (n div 100) @ ''.''
           @ [digitChar (n mod 100 div 10), digitChar (n mod 10)])"

subsection \<open>The latency histogram\<close>

record latencyHistogram =
  bins :: "uint64 list"
  maxValue :: float64
  scaleFactor :: float64
  ratioLog :: float64
  commonRatio :: float64
  startValue :: float64

record cumulativeLatencyHistogram =
  cum_bins :: "uint64 list"
  cum_commonRatio :: float64
  cum_startValue :: float64

definition newLatencyHistogram :: "float64 \<Rightarrow> float64 \<Rightarrow> float64 \<Rightarrow> error + latencyHistogram" where
  "newLatencyHistogram maxV startV ratioC =
     (case mathLog ratioC of
        None \<Rightarrow> Inl FloatNotFinite
      | Some ratio \<Rightarrow>
          (case Option.bind (Option.bind (floatDiv maxV startV) mathLog) (\<lambda>l. floatDiv l ratio) of
             None \<Rightarrow> Inl FloatNotFinite
           | Some q \<Rightarrow>
               (let numBuckets = mathCeil q + 2
                in if numBuckets < 0 then Inl MakeSliceLenOutOfRange
                   else Inr \<lparr>bins = replicate (nat numBuckets) 0,
                             maxValue = maxV,
                             scaleFactor = startV,
                             ratioLog = ratio,
                             commonRatio = ratioC,
                             startValue = startV\<rparr>)))"

definition RecordValue_bin :: "latencyHistogram \<Rightarrow> uint64 \<Rightarrow> error + int" where
  \<comment> \<open>the value of the local \<open>bin\<close> of \<open>RecordValue\<close> when it reaches the increment\<close>
  "RecordValue_bin lh val =
     (let v = float64OfUint64 val
      in if maxValue lh < v then Inr (int (length (bins lh)) - 1)
         else if v \<le> scaleFactor lh then Inr 0
         else (case Option.bind (Option.bind (floatDiv v (scaleFactor lh)) mathLog)
                      (\<lambda>l. floatDiv l (ratioLog lh)) of
                 None \<Rightarrow> Inl FloatNotFinite
               | Some q \<Rightarrow> Inr (mathCeil q)))"

definition RecordValue :: "latencyHistogram \<Rightarrow> uint64 \<Rightarrow> error + latencyHistogram" where
  "RecordValue lh val =
     (case RecordValue_bin lh val of
        Inl e \<Rightarrow> Inl e
      | Inr bin \<Rightarrow>
          if 0 \<le> bin \<and> bin < int (length (bins lh))
          then Inr (lh\<lparr>bins := (bins lh)[nat bin := bins lh ! nat bin + 1]\<rparr>)
          else Inl IndexOutOfRange)"

function aggregateLoop :: "nat \<Rightarrow> uint64 \<Rightarrow> uint64 list \<Rightarrow> uint64 list \<Rightarrow> uint64 list \<times> uint64 list" where
  "aggregateLoop i countSoFar src dst =
     (if i < length src
      then (let thisCount = src ! i; countSoFar' = countSoFar + thisCount
            in aggregateLoop (Suc i) countSoFar' (src[i := 0]) (dst[i := countSoFar']))
      else (src, dst))"
  by pat_completeness auto
termination
  by (relation "measure (\<lambda>(i, c, src, dst). length src - i)") auto

declare aggregateLoop.simps [simp del]

definition AggregateAndReset :: "latencyHistogram \<Rightarrow> latencyHistogram \<times> cumulativeLatencyHistogram" where
  "AggregateAndReset lh =
     (let (src, dst) = aggregateLoop 0 0 (bins lh) (replicate (length (bins lh)) 0)
      in (lh\<lparr>bins := src\<rparr>,
          \<lparr>cum_bins = dst, cum_commonRatio = commonRatio lh, cum_startValue = startValue lh\<rparr>))"

definition TotalCount :: "cumulativeLatencyHistogram \<Rightarrow> error + uint64" where
  "TotalCount lhs =
     (if cum_bins lhs = [] then Inl IndexOutOfRange
      else Inr (cum_bins lhs ! (length (cum_bins lhs) - 1)))"

definition renderBound :: "string \<Rightarrow> cumulativeLatencyHistogram \<Rightarrow> int \<Rightarrow> error + string" where
  \<comment> \<open>\<open>fmt.Sprintf(prefix + "%.2f", math.Pow(lhs.commonRatio, float64(e)) * lhs.startValue)\<close>\<close>
  "renderBound prefix lhs e =
     (case mathPow (cum_commonRatio lhs) e of
        None \<Rightarrow> Inl FloatNotFinite
      | Some p \<Rightarrow> Inr (prefix @ formatFixed2 (p * cum_startValue lhs)))"

fun scanBins :: "cumulativeLatencyHistogram \<Rightarrow> uint64 \<Rightarrow> nat \<Rightarrow> uint64 list \<Rightarrow> error + string" where
  "scanBins lhs count i [] = Inr ''0.0''"
| "scanBins lhs count i (bin # rest) =
     (if count \<le> bin
      then (if int i = int (length (cum_bins lhs)) - 1
            then renderBound ''> '' lhs (int i - 1)
            else renderBound ''<= '' lhs (int i))
      else scanBins lhs count (Suc i) rest)"

definition BinAtPercentile :: "cumulativeLatencyHistogram \<Rightarrow> float64 \<Rightarrow> error + string" where
  "BinAtPercentile lhs percentile =
     (case TotalCount lhs of
        Inl e \<Rightarrow> Inl e
      | Inr c \<Rightarrow>
          (case uint64OfFloat (mathCeil ((percentile / 100) * float64OfUint64 c)) of
             Inl e \<Rightarrow> Inl e
           | Inr count \<Rightarrow> scanBins lhs count 0 (cum_bins lhs)))"

subsection \<open>The value recorder\<close>

record aggregatingValueRecorder =
  peerName :: string
  hist :: latencyHistogram

datatype jsonValue =
    JDuration int
  | JUint uint64
  | JString string
  | JObject "(string \<times> jsonValue) list"

definition newAggregatingValueRecorder :: "string \<Rightarrow> error + aggregatingValueRecorder" where
  "newAggregatingValueRecorder peer =
     (case newLatencyHistogram 2000000 1000 1.5 of
        Inl e \<Rightarrow> Inl e
      | Inr h \<Rightarrow> Inr \<lparr>peerName = peer, hist = h\<rparr>)"

definition recorderRecordValue :: "aggregatingValueRecorder \<Rightarrow> uint64 \<Rightarrow> error + aggregatingValueRecorder" where
  \<comment> \<open>\<open>(bc *aggregatingValueRecorder) RecordValue\<close>\<close>
  "recorderRecordValue bc val =
     (case RecordValue (hist bc) val of Inl e \<Rightarrow> Inl e | Inr h \<Rightarrow> Inr (bc\<lparr>hist := h\<rparr>))"

definition GetAndResetValues :: "aggregatingValueRecorder \<Rightarrow> error + (aggregatingValueRecorder \<times> jsonValue)" where
  "GetAndResetValues bc =
     (let (lh, h) = AggregateAndReset (hist bc)
      in case TotalCount h of Inl e \<Rightarrow> Inl e | Inr totalCount \<Rightarrow>
         (case BinAtPercentile h 50.0 of Inl e \<Rightarrow> Inl e | Inr p50 \<Rightarrow>
         (case BinAtPercentile h 90.0 of Inl e \<Rightarrow> Inl e | Inr p90 \<Rightarrow>
         (case BinAtPercentile h 99.0 of Inl e \<Rightarrow> Inl e | Inr p99 \<Rightarrow>
         (case BinAtPercentile h 99.9 of Inl e \<Rightarrow> Inl e | Inr p999 \<Rightarrow>
         (case BinAtPercentile h 100 of Inl e \<Rightarrow> Inl e | Inr p100 \<Rightarrow>
            Inr (bc\<lparr>hist := lh\<rparr>,
                 JObject [(''total_count'', JUint totalCount),
                          (''percentiles_us'',
                             JObject [(''50.0'', JString p50),
                                      (''90.0'', JString p90),
                                      (''99.0'', JString p99),
                                      (''99.9'', JString p999),
                                      (''100.0'', JString p100)])])))))))"

subsection \<open>Recorder groups and the meter\<close>

text \<open>
  A group maps a peer name to a pointer to its recorder. The pointer is an address: an
  index into the store of recorders, where allocation appends.
\<close>

type_synonym addr = nat

record aggregatingMeterGroup =
  recorders :: "(string \<times> addr) list"

definition Recorders :: "aggregatingMeterGroup \<Rightarrow> addr list" where
  "Recorders amg = (if length (recorders amg) = 0 then [] else map snd (recorders amg))"

record AggregatingMeter =
  interval :: int
  valueRecorderGroups :: "(string \<times> aggregatingMeterGroup) list"

record AggregatingMeterOptions =
  EmitInterval :: int

text \<open>
  The string constants of the package that the meter reads are declared in a file that
  is not among the sources; they are parameters of the model.
\<close>

record meterConstants =
  meterNameResponses :: string
  meterAttribServiceKey :: string
  meterAttribPeerName :: string
  meterValueServiceKV :: string
  meterValueServiceViews :: string
  meterValueServiceQuery :: string
  meterValueServiceSearch :: string
  meterValueServiceAnalytics :: string
  meterValueServiceManagement :: string

definition timeMinute :: int where
  "timeMinute = 60 * 1000000000"

definition NewAggregatingMeter :: "meterConstants \<Rightarrow> AggregatingMeterOptions option \<Rightarrow> AggregatingMeter" where
  "NewAggregatingMeter k opts =
     (let opts' = (case opts of None \<Rightarrow> \<lparr>EmitInterval = 0\<rparr> | Some given \<Rightarrow> given);
          interval0 = EmitInterval opts';
          interval1 = (if interval0 = 0 then 10 * timeMinute else interval0)
      in \<lparr>interval = interval1,
          valueRecorderGroups =
            [(meterValueServiceKV k, \<lparr>recorders = []\<rparr>),
             (meterValueServiceViews k, \<lparr>recorders = []\<rparr>),
             (meterValueServiceQuery k, \<lparr>recorders = []\<rparr>),
             (meterValueServiceSearch k, \<lparr>recorders = []\<rparr>),
             (meterValueServiceAnalytics k, \<lparr>recorders = []\<rparr>),
             (meterValueServiceManagement k, \<lparr>recorders = []\<rparr>)]\<rparr>)"

record world =
  am :: AggregatingMeter
  heap :: "aggregatingValueRecorder list"

definition newWorld :: "meterConstants \<Rightarrow> AggregatingMeterOptions option \<Rightarrow> world" where
  "newWorld k opts = \<lparr>am = NewAggregatingMeter k opts, heap = []\<rparr>"

fun collectRecorders ::
  "addr list \<Rightarrow> aggregatingValueRecorder list \<Rightarrow> (string \<times> jsonValue) list
     \<Rightarrow> error + (aggregatingValueRecorder list \<times> (string \<times> jsonValue) list)" where
  "collectRecorders [] h serviceMap = Inr (h, serviceMap)"
| "collectRecorders (recorder # rest) h serviceMap =
     (if recorder < length h
      then (case GetAndResetValues (h ! recorder) of
              Inl e \<Rightarrow> Inl e
            | Inr (bc, v) \<Rightarrow>
                collectRecorders rest (h[recorder := bc])
                  (AList.update (peerName (h ! recorder)) v serviceMap))
      else Inl NilDereference)"

fun collectGroups ::
  "(string \<times> aggregatingMeterGroup) list \<Rightarrow> aggregatingValueRecorder list \<Rightarrow> (string \<times> jsonValue) list
     \<Rightarrow> error + (aggregatingValueRecorder list \<times> (string \<times> jsonValue) list)" where
  "collectGroups [] h output = Inr (h, output)"
| "collectGroups ((serviceName, grp) # rest) h output =
     (let rs = Recorders grp
      in if length rs = 0 then collectGroups rest h output
         else (case collectRecorders rs h [] of
                 Inl e \<Rightarrow> Inl e
               | Inr (h', serviceMap) \<Rightarrow>
                   if 0 < length serviceMap
                   then collectGroups rest h' (AList.update serviceName (JObject serviceMap) output)
                   else collectGroups rest h' output))"

definition generateOutput :: "world \<Rightarrow> error + (world \<times> (string \<times> jsonValue) list)" where
  "generateOutput w =
     (let output = AList.update ''meta'' (JObject [(''emit_interval_s'', JDuration (interval (am w)))]) []
      in case collectGroups (valueRecorderGroups (am w)) (heap w) output of
           Inl e \<Rightarrow> Inl e
         | Inr (h, out) \<Rightarrow> Inr (w\<lparr>heap := h\<rparr>, out))"

datatype valueRecorderRef = NoopValueRecorder | AggregatingRecorder addr

definition ValueRecorder ::
  "meterConstants \<Rightarrow> world \<Rightarrow> string \<Rightarrow> (string \<rightharpoonup> string) \<Rightarrow> error + (world \<times> valueRecorderRef)" where
  "ValueRecorder k w name tags =
     (if name \<noteq> meterNameResponses k then Inr (w, NoopValueRecorder)
      else case tags (meterAttribServiceKey k) of
        None \<Rightarrow> Inr (w, NoopValueRecorder)
      | Some service \<Rightarrow>
         (case map_of (valueRecorderGroups (am w)) service of
            None \<Rightarrow> Inr (w, NoopValueRecorder)
          | Some recorderGroup \<Rightarrow>
             (case tags (meterAttribPeerName k) of
                None \<Rightarrow> Inr (w, NoopValueRecorder)
              | Some peer \<Rightarrow>
                 (case map_of (recorders recorderGroup) peer of
                    Some recorder \<Rightarrow> Inr (w, AggregatingRecorder recorder)
                  | None \<Rightarrow>
                     (case newAggregatingValueRecorder peer of
                        Inl e \<Rightarrow> Inl e
                      | Inr bc \<Rightarrow>
                          (let recorder = length (heap w);
                               group' = recorderGroup\<lparr>recorders := AList.update peer recorder (recorders recorderGroup)\<rparr>
                           in Inr (w\<lparr>am := (am w)\<lparr>valueRecorderGroups :=
                                            AList.update service group' (valueRecorderGroups (am w))\<rparr>,
                                     heap := heap w @ [bc]\<rparr>,
                                   AggregatingRecorder recorder)))))))"

definition refRecordValue :: "world \<Rightarrow> valueRecorderRef \<Rightarrow> uint64 \<Rightarrow> error + world" where
  \<comment> \<open>Modelled from the spec: the no-op recorder is declared outside the sources; the spec
      says it discards the value with no side effect. The other case is the method call
      through the pointer.\<close>
  "refRecordValue w r val =
     (case r of
        NoopValueRecorder \<Rightarrow> Inr w
      | AggregatingRecorder a \<Rightarrow>
          if a < length (heap w)
          then (case recorderRecordValue (heap w ! a) val of
                  Inl e \<Rightarrow> Inl e
                | Inr bc \<Rightarrow> Inr (w\<lparr>heap := (heap w)[a := bc]\<rparr>))
          else Inl NilDereference)"

subsection \<open>The logging routine\<close>

text \<open>
  The routine waits in a \<open>select\<close> for the stop channel or the timer. The model is given
  the schedule: which case each \<open>select\<close> takes, and the recordings that request
  goroutines make in between. \<open>json.Marshal\<close> and the log functions belong to other
  packages: the serialiser is a parameter and the calls to the log functions are collected.
\<close>

datatype selected = StopCh | TimeAfter

datatype logLine = LogDebug string | LogInfo string

datatype routine = Running | Returned

type_synonym marshal = "(string \<times> jsonValue) list \<Rightarrow> string + string"

definition loggerIteration :: "marshal \<Rightarrow> world \<Rightarrow> selected \<Rightarrow> error + (world \<times> logLine list \<times> routine)" where
  \<comment> \<open>one pass through the body of the \<open>for\<close> loop of \<open>loggerRoutine\<close>\<close>
  "loggerIteration jsonMarshal w sel =
     (case sel of
        StopCh \<Rightarrow> Inr (w, [], Returned)
      | TimeAfter \<Rightarrow>
          (case generateOutput w of
             Inl e \<Rightarrow> Inl e
           | Inr (w', jsonData) \<Rightarrow>
               if length jsonData = 1 then Inr (w', [], Returned)
               else (case jsonMarshal jsonData of
                       Inl err \<Rightarrow>
                         Inr (w',
                              [LogDebug (''Failed to generate threshold logging service JSON: '' @ err),
                               LogInfo (''Aggregate metrics: '' @ [])],
                              Running)
                     | Inr jsonBytes \<Rightarrow>
                         Inr (w', [LogInfo (''Aggregate metrics: '' @ jsonBytes)], Running))))"

datatype event =
    Select selected
  | Request string "string \<rightharpoonup> string" uint64

definition request :: "meterConstants \<Rightarrow> world \<Rightarrow> string \<Rightarrow> (string \<rightharpoonup> string) \<Rightarrow> uint64 \<Rightarrow> error + world" where
  \<comment> \<open>a request goroutine: \<open>ValueRecorder(name, tags)\<close>, then \<open>RecordValue(val)\<close> on the result\<close>
  "request k w name tags val =
     (case ValueRecorder k w name tags of
        Inl e \<Rightarrow> Inl e
      | Inr (w', r) \<Rightarrow> refRecordValue w' r val)"

fun loggerRoutine ::
  "meterConstants \<Rightarrow> marshal \<Rightarrow> event list \<Rightarrow> world \<Rightarrow> error + (world \<times> logLine list \<times> routine)" where
  "loggerRoutine k jsonMarshal [] w = Inr (w, [], Running)"
| "loggerRoutine k jsonMarshal (Request name tags val # es) w =
     (case request k w name tags val of
        Inl e \<Rightarrow> Inl e
      | Inr w' \<Rightarrow> loggerRoutine k jsonMarshal es w')"
| "loggerRoutine k jsonMarshal (Select sel # es) w =
     (case loggerIteration jsonMarshal w sel of
        Inl e \<Rightarrow> Inl e
      | Inr (w', logs, Returned) \<Rightarrow> Inr (w', logs, Returned)
      | Inr (w', logs, Running) \<Rightarrow>
          (case loggerRoutine k jsonMarshal es w' of
             Inl e \<Rightarrow> Inl e
           | Inr (w'', logs', st) \<Rightarrow> Inr (w'', logs @ logs', st)))"

section \<open>Notions used to state the properties\<close>

text \<open>
  The invariant of a histogram built by \<open>newLatencyHistogram\<close> from a shape with
  \<open>0 < startValue \<le> maxValue\<close> and \<open>1 < commonRatio\<close>. Recording and resetting keep it.
\<close>

definition histInv :: "latencyHistogram \<Rightarrow> bool" where
  "histInv lh \<longleftrightarrow>
     0 < scaleFactor lh \<and> scaleFactor lh \<le> maxValue lh \<and> 1 < commonRatio lh
     \<and> startValue lh = scaleFactor lh \<and> ratioLog lh = ln (commonRatio lh)
     \<and> int (length (bins lh)) = \<lceil>ln (maxValue lh / scaleFactor lh) / ln (commonRatio lh)\<rceil> + 2"

text \<open>The bin selection rule in the words of the specification.\<close>

definition selectedBin :: "latencyHistogram \<Rightarrow> real \<Rightarrow> int" where
  "selectedBin lh v =
     (if maxValue lh < v then int (length (bins lh)) - 1
      else if v \<le> startValue lh then 0
      else \<lceil>ln (v / startValue lh) / ln (commonRatio lh)\<rceil>)"

text \<open>The histogram every value recorder starts with.\<close>

definition recorderHistogram :: latencyHistogram where
  "recorderHistogram =
     \<lparr>bins = replicate 21 0, maxValue = 2000000, scaleFactor = 1000, ratioLog = ln 1.5,
      commonRatio = 1.5, startValue = 1000\<rparr>"

text \<open>Recording a sequence of values, one call of \<open>RecordValue\<close> after the other.\<close>

fun recordAll :: "latencyHistogram \<Rightarrow> uint64 list \<Rightarrow> error + latencyHistogram" where
  "recordAll lh [] = Inr lh"
| "recordAll lh (v # vs) = (case RecordValue lh v of Inl e \<Rightarrow> Inl e | Inr lh' \<Rightarrow> recordAll lh' vs)"

text \<open>The running sums of a list of counters, starting from \<open>c\<close>.\<close>

fun prefixSums :: "uint64 \<Rightarrow> uint64 list \<Rightarrow> uint64 list" where
  "prefixSums c [] = []"
| "prefixSums c (x # xs) = (c + x) # prefixSums (c + x) xs"




text \<open>The recorder's histogram after the single value 1000 has been recorded.\<close>

definition recordedOnce :: latencyHistogram where
  "recordedOnce = recorderHistogram\<lparr>bins := (replicate 21 0)[0 := 1]\<rparr>"



text \<open>
  Values to run the model on. The constants of the package are parameters of the model
  (their declarations are not among the sources); the theorems hold for all values, the
  examples use these.
\<close>

definition exampleConstants :: meterConstants where
  "exampleConstants =
     \<lparr>meterNameResponses = ''responses'',
      meterAttribServiceKey = ''service'',
      meterAttribPeerName = ''peer'',
      meterValueServiceKV = ''kv'',
      meterValueServiceViews = ''views'',
      meterValueServiceQuery = ''query'',
      meterValueServiceSearch = ''search'',
      meterValueServiceAnalytics = ''analytics'',
      meterValueServiceManagement = ''management''\<rparr>"

definition exampleTags :: "string \<rightharpoonup> string" where
  "exampleTags = [''service'' \<mapsto> ''kv'', ''peer'' \<mapsto> ''node1'']"

definition exampleWorld :: world where
  "exampleWorld =
     \<lparr>am = \<lparr>interval = 600000000000,
             valueRecorderGroups =
               [(''kv'', \<lparr>recorders = [(''node1'', 0)]\<rparr>),
                (''views'', \<lparr>recorders = []\<rparr>),
                (''query'', \<lparr>recorders = []\<rparr>),
                (''search'', \<lparr>recorders = []\<rparr>),
                (''analytics'', \<lparr>recorders = []\<rparr>),
                (''management'', \<lparr>recorders = []\<rparr>)]\<rparr>,
      heap = [\<lparr>peerName = ''node1'', hist = recorderHistogram\<rparr>]\<rparr>"

definition exampleValues :: "uint64 \<Rightarrow> jsonValue" where
  "exampleValues n =
     JObject [(''total_count'', JUint n),
              (''percentiles_us'',
                 JObject [(''50.0'', JString ''<= 1000.00''),
                          (''90.0'', JString ''<= 1000.00''),
                          (''99.0'', JString ''<= 1000.00''),
                          (''99.9'', JString ''<= 1000.00''),
                          (''100.0'', JString ''<= 1000.00'')])]"

definition exampleOutput :: "uint64 \<Rightarrow> (string \<times> jsonValue) list" where
  "exampleOutput n =
     [(''meta'', JObject [(''emit_interval_s'', JDuration 600000000000)]),
      (''kv'', JObject [(''node1'', exampleValues n)])]"


definition okMarshal :: marshal where
  "okMarshal jsonData = Inr ''{}''"

section \<open>Properties\<close>

subsection \<open>Logarithms and ceilings\<close>

lemma ceil_log_le:
  fixes r x :: real
  assumes "1 < r" "0 < x"
  shows "\<lceil>ln x / ln r\<rceil> \<le> k \<longleftrightarrow> x \<le> r powi k"
proof -
  have lr: "0 < ln r" using assms by simp
  have pw: "r powi k = r powr of_int k" using assms by (simp add: powr_real_of_int')
  have "\<lceil>ln x / ln r\<rceil> \<le> k \<longleftrightarrow> ln x / ln r \<le> of_int k" by (simp add: ceiling_le_iff)
  also have "\<dots> \<longleftrightarrow> ln x \<le> of_int k * ln r" using lr by (simp add: pos_divide_le_eq)
  also have "\<dots> \<longleftrightarrow> ln x \<le> ln (r powr of_int k)" using assms by (simp add: ln_powr)
  also have "\<dots> \<longleftrightarrow> x \<le> r powr of_int k"
    using assms by (intro ln_le_cancel_iff) auto
  finally show ?thesis using pw by simp
qed

lemma ceil_log_fixed: "\<lceil>ln (2000::real) / ln (3 / 2)\<rceil> = 19"
proof -
  have a: "\<lceil>ln (2000::real) / ln (3 / 2)\<rceil> \<le> 19"
    by (subst ceil_log_le) (simp_all add: power_int_def power_divide)
  have b: "\<not> \<lceil>ln (2000::real) / ln (3 / 2)\<rceil> \<le> 18"
    by (subst ceil_log_le) (simp_all add: power_int_def power_divide)
  show ?thesis using a b by linarith
qed


lemma ceil_log_nonneg:
  fixes r x :: real
  assumes "1 < r" "1 \<le> x"
  shows "0 \<le> \<lceil>ln x / ln r\<rceil>"
proof -
  have "0 \<le> ln x / ln r" using assms by simp
  then show ?thesis by (simp add: ceiling_le_iff [symmetric] order_trans [OF _ le_of_int_ceiling])
qed

lemma ceil_log_pos:
  fixes r x :: real
  assumes "1 < r" "1 < x"
  shows "1 \<le> \<lceil>ln x / ln r\<rceil>"
proof -
  have "0 < ln x / ln r" using assms by simp
  then show ?thesis by (simp add: less_ceiling_iff)
qed

subsection \<open>Construction and the bin index\<close>

lemma newLatencyHistogram_ok:
  assumes "0 < startV" "startV \<le> maxV" "1 < ratioC"
  shows "newLatencyHistogram maxV startV ratioC =
           Inr \<lparr>bins = replicate (nat (\<lceil>ln (maxV / startV) / ln ratioC\<rceil> + 2)) 0,
                maxValue = maxV, scaleFactor = startV, ratioLog = ln ratioC,
                commonRatio = ratioC, startValue = startV\<rparr>"
proof -
  have q: "1 \<le> maxV / startV" using assms by simp
  have "0 \<le> \<lceil>ln (maxV / startV) / ln ratioC\<rceil>" using assms q by (intro ceil_log_nonneg) auto
  moreover have "0 < maxV / startV" using q by linarith
  moreover have "ln ratioC \<noteq> 0" using assms by simp
  ultimately have "\<not> \<lceil>ln (maxV / startV) / ln ratioC\<rceil> + 2 < 0"
    and "0 < maxV / startV" and "ln ratioC \<noteq> 0" and "startV \<noteq> 0" and "0 < ratioC"
    using assms by linarith+
  then show ?thesis
    unfolding newLatencyHistogram_def mathLog_def floatDiv_def mathCeil_def Let_def
    by (simp del: ceiling_add_numeral)
qed

lemma newLatencyHistogram_histInv:
  assumes "0 < startV" "startV \<le> maxV" "1 < ratioC" "newLatencyHistogram maxV startV ratioC = Inr lh"
  shows "histInv lh"
proof -
  have q: "1 \<le> maxV / startV" using assms by simp
  have "0 \<le> \<lceil>ln (maxV / startV) / ln ratioC\<rceil>" using assms q by (intro ceil_log_nonneg) auto
  then show ?thesis using assms newLatencyHistogram_ok [OF assms(1-3)]
    by (auto simp: histInv_def)
qed

lemma newLatencyHistogram_fixed: "newLatencyHistogram 2000000 1000 1.5 = Inr recorderHistogram"
proof -
  have "newLatencyHistogram 2000000 1000 (3 / 2) =
          Inr \<lparr>bins = replicate (nat (\<lceil>ln (2000000 / 1000 :: real) / ln (3 / 2)\<rceil> + 2)) 0,
               maxValue = 2000000, scaleFactor = 1000, ratioLog = ln (3 / 2),
               commonRatio = 3 / 2, startValue = 1000\<rparr>"
    by (rule newLatencyHistogram_ok) simp_all
  moreover have "\<lceil>ln (2000000 / 1000 :: real) / ln (3 / 2)\<rceil> = 19"
    using ceil_log_fixed by simp
  ultimately show ?thesis by (simp add: recorderHistogram_def)
qed

lemma histInv_recorderHistogram: "histInv recorderHistogram"
  using newLatencyHistogram_histInv [of 1000 2000000 "3 / 2" recorderHistogram] newLatencyHistogram_fixed
  by simp

lemma RecordValue_bin_selected:
  assumes "histInv lh"
  shows "RecordValue_bin lh val = Inr (selectedBin lh (float64OfUint64 val))"
  using assms
  by (auto simp: histInv_def RecordValue_bin_def selectedBin_def Let_def floatDiv_def mathLog_def mathCeil_def)

lemma selectedBin_range:
  assumes "histInv lh"
  shows "0 \<le> selectedBin lh v \<and> selectedBin lh v \<le> int (length (bins lh)) - 1
         \<and> (v \<le> maxValue lh \<longrightarrow> selectedBin lh v < int (length (bins lh)) - 1)"
proof -
  let ?r = "commonRatio lh" and ?s = "scaleFactor lh" and ?m = "maxValue lh"
  have r: "1 < ?r" and s: "0 < ?s" and sm: "?s \<le> ?m" and st: "startValue lh = ?s"
    and len: "int (length (bins lh)) = \<lceil>ln (?m / ?s) / ln ?r\<rceil> + 2"
    using assms by (auto simp: histInv_def)
  have top: "0 \<le> \<lceil>ln (?m / ?s) / ln ?r\<rceil>" using r s sm by (intro ceil_log_nonneg) auto
  show ?thesis
  proof (cases "?m < v")
    case True
    then have "selectedBin lh v = int (length (bins lh)) - 1" by (simp add: selectedBin_def)
    then show ?thesis using True len top by linarith
  next
    case False
    note vm = this
    show ?thesis
    proof (cases "v \<le> ?s")
      case True
      then have "selectedBin lh v = 0" using vm st by (simp add: selectedBin_def)
      then show ?thesis using vm len top by linarith
    next
      case False
      then have "1 < v / ?s" using s by simp
      then have lo: "1 \<le> \<lceil>ln (v / ?s) / ln ?r\<rceil>" using r by (intro ceil_log_pos) auto
      have "v / ?s \<le> ?m / ?s" using vm s by (simp add: divide_right_mono)
      moreover have "0 < v / ?s" using False s by simp
      ultimately have "ln (v / ?s) / ln ?r \<le> ln (?m / ?s) / ln ?r"
        using r by (simp add: divide_right_mono)
      then have hi: "\<lceil>ln (v / ?s) / ln ?r\<rceil> \<le> \<lceil>ln (?m / ?s) / ln ?r\<rceil>" by (rule ceiling_mono)
      have "selectedBin lh v = \<lceil>ln (v / ?s) / ln ?r\<rceil>"
        using False vm st by (simp add: selectedBin_def)
      then show ?thesis using lo hi len by linarith
    qed
  qed
qed

lemma histInv_bins_update: "histInv lh \<Longrightarrow> length bs = length (bins lh) \<Longrightarrow> histInv (lh\<lparr>bins := bs\<rparr>)"
  by (simp add: histInv_def)

lemma RecordValue_ok:
  assumes "histInv lh"
  shows "RecordValue lh val =
           Inr (lh\<lparr>bins := (bins lh)[nat (selectedBin lh (float64OfUint64 val)) :=
                     bins lh ! nat (selectedBin lh (float64OfUint64 val)) + 1]\<rparr>)"
proof -
  have "0 \<le> selectedBin lh (float64OfUint64 val)"
    and "selectedBin lh (float64OfUint64 val) < int (length (bins lh))"
    using selectedBin_range [OF assms, of "float64OfUint64 val"] by linarith+
  then show ?thesis
    by (simp add: RecordValue_def RecordValue_bin_selected [OF assms])
qed




subsection \<open>Claims about the histogram\<close>





text \<open>
  C10. For a shape with \<open>0 < startValue < maxValue\<close> and \<open>1 < commonRatio\<close> the
  constructor returns a histogram, and whatever its counters hold, the bin index that
  \<open>RecordValue\<close> computes for any value lies between 0 and the last index; for a value
  that does not exceed \<open>maxValue\<close> it is strictly below the last index.
\<close>

theorem RecordValue_bin_in_bounds:
  assumes "0 < startV" "startV < maxV" "1 < ratioC"
  shows "\<exists>lh. newLatencyHistogram maxV startV ratioC = Inr lh
           \<and> (\<forall>bs val. length bs = length (bins lh) \<longrightarrow>
                (\<exists>b. RecordValue_bin (lh\<lparr>bins := bs\<rparr>) val = Inr b
                      \<and> 0 \<le> b \<and> b \<le> int (length bs) - 1
                      \<and> (float64OfUint64 val \<le> maxV \<longrightarrow> b < int (length bs) - 1)))"
proof -
  have le: "startV \<le> maxV" using assms by simp
  obtain lh where lh: "newLatencyHistogram maxV startV ratioC = Inr lh"
    using newLatencyHistogram_ok [OF assms(1) le assms(3)] by blast
  have inv: "histInv lh" by (rule newLatencyHistogram_histInv [OF assms(1) le assms(3) lh])
  have mx: "maxValue lh = maxV" using lh newLatencyHistogram_ok [OF assms(1) le assms(3)] by auto
  have "\<exists>b. RecordValue_bin (lh\<lparr>bins := bs\<rparr>) val = Inr b
              \<and> 0 \<le> b \<and> b \<le> int (length bs) - 1
              \<and> (float64OfUint64 val \<le> maxV \<longrightarrow> b < int (length bs) - 1)"
    if "length bs = length (bins lh)" for bs val
  proof -
    have inv': "histInv (lh\<lparr>bins := bs\<rparr>)" using inv that by (rule histInv_bins_update)
    show ?thesis
      using selectedBin_range [OF inv', of "float64OfUint64 val"] RecordValue_bin_selected [OF inv', of val] mx
      by simp
  qed
  with lh show ?thesis by blast
qed

theorem RecordValue_bin_in_bounds_witness:
  "(0::real) < 1000 \<and> (1000::real) < 2000000 \<and> (1::real) < 1.5
   \<and> newLatencyHistogram 2000000 1000 1.5 = Inr recorderHistogram
   \<and> (\<exists>b. RecordValue_bin recorderHistogram 5000 = Inr b \<and> 0 \<le> b \<and> b < int (length (bins recorderHistogram)) - 1)"
proof -
  have h: "(0::real) < 1000" "(1000::real) < 2000000" "(1::real) < 1.5" by simp_all
  from RecordValue_bin_in_bounds [OF h] newLatencyHistogram_fixed
  have "\<forall>bs val. length bs = length (bins recorderHistogram) \<longrightarrow>
                (\<exists>b. RecordValue_bin (recorderHistogram\<lparr>bins := bs\<rparr>) val = Inr b
                      \<and> 0 \<le> b \<and> b \<le> int (length bs) - 1
                      \<and> (float64OfUint64 val \<le> 2000000 \<longrightarrow> b < int (length bs) - 1))"
    by simp
  from this [rule_format, of "bins recorderHistogram" 5000]
  have "\<exists>b. RecordValue_bin recorderHistogram 5000 = Inr b \<and> 0 \<le> b \<and> b < int (length (bins recorderHistogram)) - 1"
    by (auto simp: float64OfUint64_def)
  then show ?thesis using newLatencyHistogram_fixed by simp
qed

subsection \<open>Aggregation\<close>

lemma length_prefixSums [simp]: "length (prefixSums c xs) = length xs"
  by (induction xs arbitrary: c) auto

lemma aggregateLoop_eq:
  "i \<le> length src \<Longrightarrow> length dst = length src \<Longrightarrow>
   aggregateLoop i c src dst =
     (take i src @ replicate (length src - i) 0, take i dst @ prefixSums c (drop i src))"
proof (induction i c src dst rule: aggregateLoop.induct)
  case (1 i countSoFar src dst)
  show ?case
  proof (cases "i < length src")
    case True
    let ?c = "countSoFar + src ! i"
    have step: "aggregateLoop i countSoFar src dst = aggregateLoop (Suc i) ?c (src[i := 0]) (dst[i := ?c])"
      using True by (simp add: aggregateLoop.simps [of i] Let_def)
    have ih: "aggregateLoop (Suc i) ?c (src[i := 0]) (dst[i := ?c]) =
       (take (Suc i) (src[i := 0]) @ replicate (length (src[i := 0]) - Suc i) 0,
        take (Suc i) (dst[i := ?c]) @ prefixSums ?c (drop (Suc i) (src[i := 0])))"
      using "1.IH" [OF True refl refl] True "1.prems" by simp
    have a: "take (Suc i) (src[i := 0]) = take i src @ [0]"
      using True by (simp add: take_Suc_conv_app_nth)
    have b: "take (Suc i) (dst[i := ?c]) = take i dst @ [?c]"
      using True "1.prems" by (simp add: take_Suc_conv_app_nth)
    have c: "replicate (length src - i) (0::uint64) = 0 # replicate (length src - Suc i) 0"
      using True by (metis Suc_diff_Suc replicate_Suc)
    have d: "drop i src = src ! i # drop (Suc i) src"
      using True by (simp add: Cons_nth_drop_Suc)
    show ?thesis unfolding step ih a b c d by simp
  next
    case False
    then have "aggregateLoop i countSoFar src dst = (src, dst)"
      by (subst aggregateLoop.simps) simp
    moreover have "i = length src" using False "1.prems" by simp
    ultimately show ?thesis using "1.prems" by simp
  qed
qed

lemma AggregateAndReset_eq:
  "AggregateAndReset lh =
     (lh\<lparr>bins := replicate (length (bins lh)) 0\<rparr>,
      \<lparr>cum_bins = prefixSums 0 (bins lh), cum_commonRatio = commonRatio lh, cum_startValue = startValue lh\<rparr>)"
  by (simp add: AggregateAndReset_def aggregateLoop_eq)

lemma prefixSums_nth:
  "unat c + sum_list (map unat xs) < 2 ^ 64 \<Longrightarrow> j < length xs \<Longrightarrow>
   unat (prefixSums c xs ! j) = unat c + sum_list (map unat (take (Suc j) xs))"
proof (induction xs arbitrary: c j)
  case Nil
  then show ?case by simp
next
  case (Cons x xs)
  have cx: "unat (c + x) = unat c + unat x"
    using Cons.prems(1) by (intro unat_add_lem [THEN iffD1]) simp
  show ?case
  proof (cases j)
    case 0
    then show ?thesis using cx by simp
  next
    case (Suc k)
    have "unat (prefixSums (c + x) xs ! k) = unat (c + x) + sum_list (map unat (take (Suc k) xs))"
      using Cons.prems Suc cx by (intro Cons.IH) auto
    then show ?thesis using Suc cx by simp
  qed
qed

lemma sum_take_mono:
  fixes ns :: "nat list"
  shows "i \<le> j \<Longrightarrow> sum_list (take i ns) \<le> sum_list (take j ns)"
proof -
  assume "i \<le> j"
  then have "take j ns = take i ns @ take (j - i) (drop i ns)"
    by (metis le_add_diff_inverse take_add)
  then show ?thesis by simp
qed

lemma sum_take_le:
  fixes ns :: "nat list"
  shows "sum_list (take i ns) \<le> sum_list ns"
  by (metis append_take_drop_id le_add1 sum_list_append)

lemma prefixSums_sorted:
  assumes "sum_list (map unat xs) < 2 ^ 64"
  shows "sorted (prefixSums 0 xs)"
proof (rule sorted_iff_nth_mono [THEN iffD2], intro allI impI)
  fix i j assume ij: "i \<le> j" and j: "j < length (prefixSums 0 xs)"
  have a: "unat (prefixSums 0 xs ! i) = sum_list (map unat (take (Suc i) xs))"
    using prefixSums_nth [of 0 xs i] assms ij j by simp
  have b: "unat (prefixSums 0 xs ! j) = sum_list (map unat (take (Suc j) xs))"
    using prefixSums_nth [of 0 xs j] assms j by simp
  have "sum_list (take (Suc i) (map unat xs)) \<le> sum_list (take (Suc j) (map unat xs))"
    using ij by (intro sum_take_mono) simp
  then show "prefixSums 0 xs ! i \<le> prefixSums 0 xs ! j"
    using a b by (simp add: word_le_nat_alt take_map)
qed

lemma sum_unat_update:
  assumes "i < length xs" "sum_list (map unat xs) + 1 < 2 ^ 64"
  shows "sum_list (map unat (xs[i := xs ! i + (1::uint64)])) = sum_list (map unat xs) + 1"
proof -
  have mem: "unat (xs ! i) \<le> sum_list (map unat xs)"
    using assms(1) by (intro member_le_sum_list) simp_all
  have "unat (xs ! i + 1) = unat (xs ! i) + unat (1::uint64)"
    using mem assms(2) by (intro unat_add_lem [THEN iffD1]) simp
  then have u: "unat (xs ! i + 1) = unat (xs ! i) + 1" by simp
  have "sum_list ((map unat xs)[i := unat (xs ! i + 1)]) = sum_list (map unat xs) + unat (xs ! i + 1) - (map unat xs) ! i"
    using assms(1) by (intro sum_list_update) simp
  then show ?thesis using u assms(1) by (simp add: map_update)
qed

lemma RecordValue_histInv:
  assumes "histInv lh" "RecordValue lh val = Inr lh'"
  shows "histInv lh'"
  using assms RecordValue_ok [OF assms(1), of val] by (auto intro: histInv_bins_update)

lemma RecordValue_count:
  assumes "histInv lh" "sum_list (map unat (bins lh)) + 1 < 2 ^ 64"
  shows "\<exists>lh'. RecordValue lh val = Inr lh' \<and> histInv lh'
            \<and> sum_list (map unat (bins lh')) = sum_list (map unat (bins lh)) + 1"
proof -
  let ?b = "selectedBin lh (float64OfUint64 val)"
  have r: "0 \<le> ?b" "?b < int (length (bins lh))"
    using selectedBin_range [OF assms(1), of "float64OfUint64 val"] by linarith+
  then have "nat ?b < length (bins lh)" by linarith
  from sum_unat_update [OF this assms(2)] RecordValue_ok [OF assms(1), of val] assms(1)
  show ?thesis by (simp add: histInv_bins_update)
qed

lemma recordAll_count:
  "histInv lh \<Longrightarrow> sum_list (map unat (bins lh)) + length vs < 2 ^ 64 \<Longrightarrow>
   \<exists>lh'. recordAll lh vs = Inr lh' \<and> histInv lh'
          \<and> sum_list (map unat (bins lh')) = sum_list (map unat (bins lh)) + length vs"
proof (induction vs arbitrary: lh)
  case Nil
  then show ?case by simp
next
  case (Cons v vs)
  from Cons.prems have "sum_list (map unat (bins lh)) + 1 < 2 ^ 64" by simp
  from RecordValue_count [OF Cons.prems(1) this, of v] obtain lh1 where
    rv: "RecordValue lh v = Inr lh1" and inv: "histInv lh1"
    and cnt: "sum_list (map unat (bins lh1)) = sum_list (map unat (bins lh)) + 1" by blast
  have "sum_list (map unat (bins lh1)) + length vs < 2 ^ 64" using cnt Cons.prems(2) by simp
  from Cons.IH [OF inv this] obtain lh' where
    "recordAll lh1 vs = Inr lh'" "histInv lh'"
    "sum_list (map unat (bins lh')) = sum_list (map unat (bins lh1)) + length vs" by blast
  then show ?case using rv cnt by simp
qed

lemma histInv_nonempty: "histInv lh \<Longrightarrow> bins lh \<noteq> []"
proof -
  assume inv: "histInv lh"
  from selectedBin_range [OF inv, of 0] have "0 < int (length (bins lh))" by linarith
  then show ?thesis by auto
qed

lemma TotalCount_prefixSums:
  assumes "xs \<noteq> []" "sum_list (map unat xs) < 2 ^ 64"
  shows "TotalCount \<lparr>cum_bins = prefixSums 0 xs, cum_commonRatio = r, cum_startValue = s\<rparr>
           = Inr (of_nat (sum_list (map unat xs)))"
proof -
  have len: "length xs - 1 < length xs" using assms(1) by (cases xs) auto
  have "unat (prefixSums 0 xs ! (length xs - 1)) = sum_list (map unat (take (Suc (length xs - 1)) xs))"
    using prefixSums_nth [of 0 xs "length xs - 1"] assms(2) len by simp
  also have "\<dots> = sum_list (map unat xs)" using len by simp
  finally have u: "unat (prefixSums 0 xs ! (length xs - 1)) = sum_list (map unat xs)" .
  have "(of_nat (unat (prefixSums 0 xs ! (length xs - 1))) :: uint64) = prefixSums 0 xs ! (length xs - 1)"
    by simp
  then have "prefixSums 0 xs ! (length xs - 1) = of_nat (sum_list (map unat xs))"
    unfolding u by simp
  moreover have "prefixSums 0 xs \<noteq> []" using assms(1) by (cases xs) auto
  ultimately show ?thesis by (simp add: TotalCount_def)
qed

text \<open>
  C6. Take a histogram whose counters are all zero (fresh, or just reset) and record any
  sequence of \<open>N < 2^64\<close> values. All the calls return, and \<open>AggregateAndReset\<close>
  then gives a snapshot whose bins are non-decreasing, whose bin \<open>i\<close> is the sum of the
  counters \<open>0 .. i\<close>, and whose \<open>TotalCount\<close> is \<open>N\<close>; a second
  \<open>AggregateAndReset\<close> right after gives \<open>TotalCount = 0\<close>.
\<close>

theorem AggregateAndReset_prefix_sums_total:
  assumes "histInv lh0" "bins lh0 = replicate (length (bins lh0)) 0" "length vs < 2 ^ 64"
  shows "\<exists>lh1. recordAll lh0 vs = Inr lh1
           \<and> sorted (cum_bins (snd (AggregateAndReset lh1)))
           \<and> (\<forall>i < length (bins lh1).
                 unat (cum_bins (snd (AggregateAndReset lh1)) ! i) = sum_list (map unat (take (Suc i) (bins lh1))))
           \<and> TotalCount (snd (AggregateAndReset lh1)) = Inr (of_nat (length vs))
           \<and> TotalCount (snd (AggregateAndReset (fst (AggregateAndReset lh1)))) = Inr 0"
proof -
  have z: "sum_list (map unat (bins lh0)) = 0"
    by (subst assms(2)) (simp add: sum_list_replicate)
  from recordAll_count [OF assms(1), of vs] z assms(3) obtain lh1 where
    ra: "recordAll lh0 vs = Inr lh1" and inv: "histInv lh1"
    and cnt: "sum_list (map unat (bins lh1)) = length vs" by auto
  have ne: "bins lh1 \<noteq> []" by (rule histInv_nonempty [OF inv])
  have lt: "sum_list (map unat (bins lh1)) < 2 ^ 64" using cnt assms(3) by simp
  have s: "sorted (cum_bins (snd (AggregateAndReset lh1)))"
    using prefixSums_sorted [OF lt] by (simp add: AggregateAndReset_eq)
  have p: "\<forall>i < length (bins lh1).
            unat (cum_bins (snd (AggregateAndReset lh1)) ! i) = sum_list (map unat (take (Suc i) (bins lh1)))"
    using prefixSums_nth [of 0 "bins lh1"] lt by (simp add: AggregateAndReset_eq)
  have t: "TotalCount (snd (AggregateAndReset lh1)) = Inr (of_nat (length vs))"
    using TotalCount_prefixSums [OF ne lt] cnt by (simp add: AggregateAndReset_eq)
  have ne0: "replicate (length (bins lh1)) (0::uint64) \<noteq> []" using ne by simp
  have "TotalCount (snd (AggregateAndReset (fst (AggregateAndReset lh1)))) = Inr (of_nat 0)"
    using TotalCount_prefixSums [OF ne0, of "commonRatio lh1" "startValue lh1"]
    by (simp add: AggregateAndReset_eq sum_list_replicate)
  then show ?thesis using ra s p t by auto
qed

theorem AggregateAndReset_prefix_sums_total_witness:
  "histInv recorderHistogram
   \<and> bins recorderHistogram = replicate (length (bins recorderHistogram)) 0
   \<and> length [1000, 5000, 3000000 :: uint64] < 2 ^ 64
   \<and> (\<exists>lh1. recordAll recorderHistogram [1000, 5000, 3000000] = Inr lh1
          \<and> sorted (cum_bins (snd (AggregateAndReset lh1)))
          \<and> TotalCount (snd (AggregateAndReset lh1)) = Inr 3
          \<and> TotalCount (snd (AggregateAndReset (fst (AggregateAndReset lh1)))) = Inr 0)"
proof -
  have b: "bins recorderHistogram = replicate (length (bins recorderHistogram)) 0"
    by (simp add: recorderHistogram_def)
  have l: "length [1000, 5000, 3000000 :: uint64] < 2 ^ 64" by simp
  from AggregateAndReset_prefix_sums_total [OF histInv_recorderHistogram b l]
  show ?thesis using histInv_recorderHistogram b by auto
qed

subsection \<open>Percentiles\<close>







lemma formatFixed2_1000: "formatFixed2 1000 = ''1000.00''"
  by (simp add: formatFixed2_def roundHalfEven_def showNat.simps digitChar_def)

lemma RecordValue_fixed_1000: "RecordValue recorderHistogram 1000 = Inr recordedOnce"
proof -
  have "selectedBin recorderHistogram (float64OfUint64 1000) = 0"
    by (simp add: selectedBin_def recorderHistogram_def float64OfUint64_def)
  then show ?thesis
    using RecordValue_ok [OF histInv_recorderHistogram, of 1000]
    by (simp add: recorderHistogram_def recordedOnce_def)
qed

lemma replicate_unfold: "replicate (numeral k) x = x # replicate (pred_numeral k) x"
  by (simp add: numeral_eq_Suc)








subsection \<open>Resolving recorders\<close>

lemma newAggregatingValueRecorder_ok:
  "newAggregatingValueRecorder peer = Inr \<lparr>peerName = peer, hist = recorderHistogram\<rparr>"
  using newLatencyHistogram_fixed by (simp add: newAggregatingValueRecorder_def)










subsection \<open>Building the output\<close>






subsection \<open>The example run\<close>

lemma example_ValueRecorder:
  "ValueRecorder exampleConstants (newWorld exampleConstants None) ''responses'' exampleTags
     = Inr (exampleWorld, AggregatingRecorder 0)"
  by (simp add: ValueRecorder_def exampleConstants_def newWorld_def NewAggregatingMeter_def exampleTags_def
        newAggregatingValueRecorder_ok exampleWorld_def timeMinute_def Let_def)


lemma BinAtPercentile_first_bin:
  assumes "0 \<le> p" "p \<le> 100" "n = 0 \<or> n = 1" "n = 1 \<longrightarrow> 0 < p"
  shows "BinAtPercentile \<lparr>cum_bins = n # replicate 20 n, cum_commonRatio = 1.5, cum_startValue = 1000\<rparr> p
           = Inr ''<= 1000.00''"
proof -
  let ?s = "\<lparr>cum_bins = n # replicate 20 n, cum_commonRatio = 1.5, cum_startValue = 1000\<rparr>"
  have c: "\<lceil>(p / 100) * real (unat n)\<rceil> = int (unat n)"
  proof (cases "n = 0")
    case True
    then show ?thesis by simp
  next
    case False
    then have n: "n = 1" and p: "0 < p" using assms by auto
    have "\<lceil>p / 100\<rceil> = 1" using p assms(2) by (simp add: ceiling_eq_iff)
    then show ?thesis using n by simp
  qed
  have tc: "TotalCount ?s = Inr n" by (simp add: TotalCount_def)
  have conv: "uint64OfFloat (mathCeil ((p / 100) * float64OfUint64 n)) = Inr n"
    unfolding mathCeil_def float64OfUint64_def c using assms(3) by (auto simp: uint64OfFloat_def)
  have "BinAtPercentile ?s p = scanBins ?s n 0 (n # replicate 20 n)"
    by (simp only: BinAtPercentile_def tc sum.case conv cumulativeLatencyHistogram.simps)
  also have "\<dots> = renderBound ''<= '' ?s 0" by simp
  also have "\<dots> = Inr ''<= 1000.00''" by (simp add: renderBound_def mathPow_def formatFixed2_1000)
  finally show ?thesis .
qed

lemma GetAndResetValues_example:
  assumes "n = 0 \<or> n = 1"
  shows "GetAndResetValues \<lparr>peerName = peer, hist = recorderHistogram\<lparr>bins := (replicate 21 0)[0 := n]\<rparr>\<rparr>
           = Inr (\<lparr>peerName = peer, hist = recorderHistogram\<rparr>, exampleValues n)"
proof -
  let ?s = "\<lparr>cum_bins = n # replicate 20 n, cum_commonRatio = 1.5, cum_startValue = 1000\<rparr>"
  have ps: "prefixSums n (replicate 20 0) = replicate 20 n"
    by (simp add: replicate_unfold)
  have agg: "AggregateAndReset (recorderHistogram\<lparr>bins := (replicate 21 0)[0 := n]\<rparr>) = (recorderHistogram, ?s)"
    using ps by (simp add: AggregateAndReset_eq recorderHistogram_def replicate_unfold [of _ "0::uint64"])
  have t: "TotalCount ?s = Inr n" by (simp add: TotalCount_def replicate_unfold)
  have p: "BinAtPercentile ?s 50.0 = Inr ''<= 1000.00''" "BinAtPercentile ?s 90.0 = Inr ''<= 1000.00''"
    "BinAtPercentile ?s 99.0 = Inr ''<= 1000.00''" "BinAtPercentile ?s 99.9 = Inr ''<= 1000.00''"
    "BinAtPercentile ?s 100 = Inr ''<= 1000.00''"
    using assms by (intro BinAtPercentile_first_bin; simp)+
  show ?thesis
    by (simp only: GetAndResetValues_def aggregatingValueRecorder.simps agg Let_def prod.case t p sum.case
          exampleValues_def)
qed

lemma generateOutput_example:
  assumes "n = 0 \<or> n = 1"
  shows "generateOutput (exampleWorld\<lparr>heap := [\<lparr>peerName = ''node1'', hist = recorderHistogram\<lparr>bins := (replicate 21 0)[0 := n]\<rparr>\<rparr>]\<rparr>)
           = Inr (exampleWorld, exampleOutput n)"
  using GetAndResetValues_example [OF assms, of "''node1''"]
  by (simp add: generateOutput_def exampleWorld_def Recorders_def exampleOutput_def)



lemma generateOutput_newWorld:
  "generateOutput (newWorld k opts) =
     Inr (newWorld k opts, [(''meta'', JObject [(''emit_interval_s'', JDuration (interval (am (newWorld k opts))))])])"
  by (simp add: generateOutput_def newWorld_def NewAggregatingMeter_def Recorders_def Let_def)

lemma request_example:
  "request exampleConstants (newWorld exampleConstants None) ''responses'' exampleTags 1000
     = Inr (exampleWorld\<lparr>heap := [\<lparr>peerName = ''node1'', hist = recorderHistogram\<lparr>bins := (replicate 21 0)[0 := 1]\<rparr>\<rparr>]\<rparr>)"
  using RecordValue_fixed_1000
  by (simp add: request_def example_ValueRecorder refRecordValue_def exampleWorld_def recorderRecordValue_def
        recordedOnce_def)

lemma loggerRoutine_emits_after_recording:
  "loggerRoutine exampleConstants okMarshal [Request ''responses'' exampleTags 1000, Select TimeAfter]
     (newWorld exampleConstants None)
     = Inr (exampleWorld, [LogInfo ''Aggregate metrics: {}''], Running)"
  by (simp add: request_example loggerIteration_def generateOutput_example exampleOutput_def okMarshal_def)

subsection \<open>Claims about the meter\<close>






text \<open>
  C1. The code departs from the claim here: on a timer tick whose output holds nothing
  but \<open>meta\<close> the routine returns. From a new meter the first tick ends the routine
  with nothing logged, whatever the schedule holds after it.
\<close>

theorem loggerRoutine_returns_on_meta_only_tick:
  "loggerRoutine k jsonMarshal (Select TimeAfter # es) (newWorld k opts) = Inr (newWorld k opts, [], Returned)"
  by (simp add: loggerIteration_def generateOutput_newWorld)

text \<open>
  The same recording followed by a tick is logged when no empty tick comes first, and is
  not logged when one does.
\<close>

theorem loggerRoutine_no_emission_after_empty_tick:
  "loggerRoutine exampleConstants okMarshal
     [Select TimeAfter, Request ''responses'' exampleTags 1000, Select TimeAfter]
     (newWorld exampleConstants None)
     = Inr (newWorld exampleConstants None, [], Returned)"
  by (simp add: loggerIteration_def generateOutput_newWorld)




end
